theory Spec2Isabelle
  imports Complex_Main
begin

section \<open>Python strings\<close>

text \<open>
  A Python \<open>str\<close> is a sequence of Unicode code points; it is modelled as a list of
  natural numbers, one per code point. \<open>lit\<close> turns an ASCII literal into such a list.
\<close>

type_synonym ustr = "nat list"

definition lit :: "string \<Rightarrow> ustr" where
  "lit s = map of_char s"

text \<open>
  The warning sign that starts both failure texts of \<open>call_llm\<close> is the two code points
  U+26A0 U+FE0F.
\<close>

definition warning_sign :: ustr where
  "warning_sign = [9888, 65039]"

text \<open>
  \<open>str.strip()\<close> and the regular expression class \<open>\s\<close> use the same whitespace test of
  the interpreter (the characters for which \<open>str.isspace\<close> holds).
\<close>

definition is_space :: "nat \<Rightarrow> bool" where
  "is_space c =
     ((9 \<le> c \<and> c \<le> 13) \<or> (28 \<le> c \<and> c \<le> 32) \<or> c = 133 \<or> c = 160 \<or> c = 5760
      \<or> (8192 \<le> c \<and> c \<le> 8202) \<or> c = 8232 \<or> c = 8233 \<or> c = 8239 \<or> c = 8287
      \<or> c = 12288)"

text \<open>
  The class \<open>\d\<close> of a \<open>str\<close> pattern is every Unicode decimal digit. Below code point
  128 these are \<open>0\<close> to \<open>9\<close>; above, the table belongs to the interpreter's Unicode
  database, which is not part of the repository: it is the parameter \<open>nd\<close>.
\<close>

definition is_digit :: "(nat \<Rightarrow> bool) \<Rightarrow> nat \<Rightarrow> bool" where
  "is_digit nd c = ((48 \<le> c \<and> c \<le> 57) \<or> (128 \<le> c \<and> nd c))"

definition strip :: "ustr \<Rightarrow> ustr" where
  "strip s = rev (dropWhile is_space (rev (dropWhile is_space s)))"

text \<open>\<open>s.split('\n')\<close>: never empty, one more piece than there are line feeds.\<close>

fun split_nl :: "ustr \<Rightarrow> ustr list" where
  "split_nl [] = [[]]"
| "split_nl (c # cs) =
     (if c = 10 then [] # split_nl cs
      else (case split_nl cs of [] \<Rightarrow> [[c]] | l # ls \<Rightarrow> (c # l) # ls))"

definition startswith :: "ustr \<Rightarrow> ustr \<Rightarrow> bool" where
  "startswith s p = (take (length p) s = p)"

text \<open>\<open>str(n)\<close> for a non-negative integer.\<close>

fun str_of_nat :: "nat \<Rightarrow> ustr" where
  "str_of_nat n = (if n < 10 then [48 + n] else str_of_nat (n div 10) @ [48 + n mod 10])"

declare str_of_nat.simps [simp del]

section \<open>The batch response parser\<close>

text \<open>
  \<open>re.match(r'^\d+[\.\)]', s)\<close>: the digits are taken greedily, and giving some back never
  helps, since the character after a shorter run is a digit. The result is the end of the
  match.
\<close>

definition re_match_number :: "(nat \<Rightarrow> bool) \<Rightarrow> ustr \<Rightarrow> nat option" where
  "re_match_number nd s =
     (let ds = takeWhile (is_digit nd) s in
      if ds = [] then None
      else (case dropWhile (is_digit nd) s of
              [] \<Rightarrow> None
            | c # _ \<Rightarrow> if c = 46 \<or> c = 41 then Some (Suc (length ds)) else None))"

text \<open>
  \<open>re.sub(r'^\d+[\.\)]\s*', '', s)\<close>: the pattern is anchored at the start, so at most one
  occurrence is replaced.
\<close>

definition re_sub_number :: "(nat \<Rightarrow> bool) \<Rightarrow> ustr \<Rightarrow> ustr" where
  "re_sub_number nd s =
     (case re_match_number nd s of
        None \<Rightarrow> s
      | Some n \<Rightarrow> dropWhile is_space (drop n s))"

text \<open>The loop over the lines, with the list \<open>explanations\<close> it appends to.\<close>

fun scan_lines :: "(nat \<Rightarrow> bool) \<Rightarrow> ustr list \<Rightarrow> ustr list \<Rightarrow> ustr list" where
  "scan_lines nd [] explanations = explanations"
| "scan_lines nd (line # lines) explanations =
     (if re_match_number nd (strip line) \<noteq> None
      then scan_lines nd lines (explanations @ [re_sub_number nd (strip line)])
      else scan_lines nd lines explanations)"

definition generic_explanations :: "nat \<Rightarrow> ustr list" where
  "generic_explanations expected_count =
     map (\<lambda>i. lit ''Code file '' @ str_of_nat (i + 1)) [0..<expected_count]"

text \<open>
  \<open>expected_count\<close> is the length of a batch at the only call site, hence a natural
  number.
\<close>

definition parse_batch_response :: "(nat \<Rightarrow> bool) \<Rightarrow> ustr \<Rightarrow> nat \<Rightarrow> ustr list" where
  "parse_batch_response nd response expected_count =
     (let explanations = scan_lines nd (split_nl response) [] in
      if length explanations \<noteq> expected_count
      then generic_explanations expected_count
      else explanations)"

section \<open>The quiz\<close>

definition quiz_header :: ustr where
  "quiz_header =
     lit ''# Quick Project Quiz\<newline>\<newline>'' @ lit ''## Based on the code explanations\<newline>\<newline>''"

definition quiz_question :: "nat \<Rightarrow> ustr \<Rightarrow> ustr" where
  "quiz_question i explanation =
     lit ''### Question '' @ str_of_nat (i + 1) @ lit ''\<newline>''
     @ lit ''What does this code do?\<newline>\<newline>''
     @ lit ''**Hint:** '' @ explanation @ lit ''\<newline>\<newline>''
     @ lit ''A) It processes data  \<newline>B) It handles user input  \<newline>C) It manages state  \<newline>D) It renders UI\<newline>\<newline>''
     @ lit ''**Answer:** *Discuss with your team!*\<newline>\<newline>''"

text \<open>
  The loop over \<open>enumerate(explanations[:10])\<close>: \<open>i\<close> is the running index and \<open>quiz_md\<close>
  the text built so far.
\<close>

fun quiz_loop :: "nat \<Rightarrow> ustr list \<Rightarrow> ustr \<Rightarrow> ustr" where
  "quiz_loop i [] quiz_md = quiz_md"
| "quiz_loop i (explanation # rest) quiz_md =
     (if explanation \<noteq> [] \<and> \<not> startswith explanation warning_sign
      then quiz_loop (Suc i) rest (quiz_md @ quiz_question i explanation)
      else quiz_loop (Suc i) rest quiz_md)"

definition generate_simple_quiz :: "ustr list \<Rightarrow> ustr" where
  "generate_simple_quiz explanations = quiz_loop 0 (take 10 explanations) quiz_header"

section \<open>The completion service and the rest of the outside world\<close>

text \<open>
  What one \<open>requests.post\<close> can bring back. \<open>NoResponse e\<close>: the call raised a
  \<open>RequestException\<close> (a timeout, a refused connection) whose text is \<open>e\<close>.
  \<open>Response status e body\<close>: a response arrived with this status code; \<open>e\<close> is the text of
  the \<open>HTTPError\<close> that \<open>raise_for_status\<close> builds for it, raised for the codes from 400 to
  599.
\<close>

datatype body =
    Content ustr   \<comment> \<open>\<open>resp.json()["choices"][0]["message"]["content"]\<close> is this string\<close>
  | JsonError ustr \<comment> \<open>\<open>resp.json()\<close> raises the library's \<open>JSONDecodeError\<close>, a \<open>RequestException\<close>\<close>
  | OtherError     \<comment> \<open>the lookup raises \<open>KeyError\<close>, \<open>IndexError\<close> or \<open>TypeError\<close>, or the encoding fails\<close>

datatype outcome =
    NoResponse ustr
  | Response nat ustr body

datatype error =
    ValueError ustr
  | SystemExit nat
  | LookupFailure
  | RenderError

text \<open>One entry per \<open>requests.post\<close>, in the order the calls are made.\<close>

record attempt_entry =
  model_index :: nat
  model :: ustr
  content :: ustr
  attempt_no :: nat
  budget :: nat
  got :: outcome

text \<open>
  The effects of the pipeline that the properties speak of: the requests made and the
  durations passed to \<open>time.sleep\<close>.
\<close>

record world =
  posts :: "attempt_entry list"
  sleeps :: "real list"

record source_file =
  file_path :: ustr
  rel_path :: ustr
  file_ext :: ustr
  counter :: nat
  contents :: ustr \<comment> \<open>what \<open>read_code\<close> returns: empty for an empty or unreadable file\<close>

text \<open>
  \<open>respond\<close>: the outcome of the \<open>k\<close>-th request of the run, given model and prompt.
  \<open>random\<close>: the \<open>k\<close>-th value of \<open>random.random()\<close>. \<open>decimal\<close>: the decimal digits above
  code point 127. \<open>isdir\<close> and \<open>all_files\<close>: the file system, the latter being the list that
  the \<open>os.walk\<close> loop of \<open>process_folder\<close> collects. \<open>weasyprint\<close> and \<open>pandoc_pdf\<close>:
  whether the first and the fallback PDF renderer succeed on the document that the run
  writes to the given output file.
\<close>

record environment =
  respond :: "nat \<Rightarrow> ustr \<Rightarrow> ustr \<Rightarrow> outcome"
  random :: "nat \<Rightarrow> real"
  decimal :: "nat \<Rightarrow> bool"
  isdir :: "ustr \<Rightarrow> bool"
  all_files :: "ustr \<Rightarrow> source_file list"
  weasyprint :: "ustr \<Rightarrow> bool"
  pandoc_pdf :: "ustr \<Rightarrow> bool"

definition FREE_MODELS :: "ustr list" where
  "FREE_MODELS =
     [lit ''qwen/qwen3-coder:free'', lit ''google/gemma-2-9b-it:free'',
      lit ''mistralai/mistral-7b-instruct:free'']"

text \<open>
  \<open>random.uniform(a, b)\<close> is \<open>a + (b - a) * random()\<close>. Every draw of the pipeline is
  followed by one \<open>time.sleep\<close>, so the number of sleeps so far numbers the draw.
\<close>

definition uniform :: "environment \<Rightarrow> world \<Rightarrow> real \<Rightarrow> real \<Rightarrow> real" where
  "uniform env w a b = a + (b - a) * random env (length (sleeps w))"

definition sleep :: "real \<Rightarrow> world \<Rightarrow> world" where
  "sleep t w = w\<lparr>sleeps := sleeps w @ [t]\<rparr>"

section \<open>\<open>call_llm\<close>\<close>

definition rate_limit_wait :: "nat \<Rightarrow> real \<Rightarrow> real" where
  "rate_limit_wait attempt jitter = min 120 (2 ^ attempt * 5 + jitter)"

definition error_wait :: "nat \<Rightarrow> real \<Rightarrow> real" where
  "error_wait attempt jitter = 2 ^ attempt + jitter"

text \<open>The body of the \<open>try\<close> block after the request, up to the point where it is left.\<close>

datatype try_result =
    RateLimited
  | Returned ustr
  | Caught ustr
  | Escaped

fun try_block :: "outcome \<Rightarrow> try_result" where
  "try_block (NoResponse e) = Caught e"
| "try_block (Response status e b) =
     (if status = 429 then RateLimited
      else if 400 \<le> status \<and> status < 600 then Caught e
      else (case b of
              Content response_text \<Rightarrow> Returned (filter (\<lambda>c. c < 128) response_text)
            | JsonError e' \<Rightarrow> Caught e'
            | OtherError \<Rightarrow> Escaped))"

definition unavailable :: ustr where
  "unavailable = warning_sign @ lit '' Explanation unavailable due to API issues''"

definition could_not :: "ustr \<Rightarrow> ustr" where
  "could_not e = warning_sign @ lit '' Could not generate explanation due to API error: '' @ e"

text \<open>
  The \<open>for attempt in range(retries)\<close> loop, entered at \<open>attempt\<close>. The rate-limit branch
  leaves the loop through a new call with the next model index and one retry less, which
  starts again at attempt 0.
\<close>

function call_llm_from ::
  "environment \<Rightarrow> ustr \<Rightarrow> nat \<Rightarrow> nat \<Rightarrow> nat \<Rightarrow> world \<Rightarrow> (error + ustr) \<times> world" where
  "call_llm_from env prompt mi retries att w =
     (if retries \<le> att then (Inr unavailable, w)
      else
        let current_model = FREE_MODELS ! (mi mod length FREE_MODELS);
            out = respond env (length (posts w)) current_model (take 8000 prompt);
            w1 = w\<lparr>posts := posts w @
                   [\<lparr>model_index = mi, model = current_model, content = take 8000 prompt,
                     attempt_no = att, budget = retries, got = out\<rparr>]\<rparr>
        in (case try_block out of
              RateLimited \<Rightarrow>
                call_llm_from env prompt (mi + 1) (retries - 1) 0
                  (sleep (rate_limit_wait att (uniform env w1 0 5)) w1)
            | Returned text \<Rightarrow> (Inr text, w1)
            | Escaped \<Rightarrow> (Inl LookupFailure, w1)
            | Caught e \<Rightarrow>
                if att = retries - 1 then (Inr (could_not e), w1)
                else call_llm_from env prompt mi retries (Suc att)
                       (sleep (error_wait att (uniform env w1 0 3)) w1)))"
  by pat_completeness auto
termination
  by (relation "measures [\<lambda>(env, prompt, mi, retries, att, w). retries,
                          \<lambda>(env, prompt, mi, retries, att, w). retries - att]") auto

declare call_llm_from.simps [simp del]

definition call_llm :: "environment \<Rightarrow> ustr \<Rightarrow> nat \<Rightarrow> nat \<Rightarrow> world \<Rightarrow> (error + ustr) \<times> world" where
  "call_llm env prompt mi retries w = call_llm_from env prompt mi retries 0 w"

section \<open>Batches\<close>

fun batch_prompt_loop :: "nat \<Rightarrow> (ustr \<times> ustr \<times> ustr) list \<Rightarrow> ustr \<Rightarrow> ustr" where
  "batch_prompt_loop i [] batch_prompt = batch_prompt"
| "batch_prompt_loop i ((filename, code, ext) # rest) batch_prompt =
     batch_prompt_loop (Suc i) rest
       (batch_prompt @ str_of_nat (i + 1) @ lit ''. '' @ filename @ lit '' ('' @ ext
        @ lit ''):\<newline>```'' @ ext @ lit ''\<newline>'' @ take 500 code @ lit ''\<newline>```\<newline>\<newline>'')"

definition generate_batch_explanations ::
  "environment \<Rightarrow> (ustr \<times> ustr \<times> ustr) list \<Rightarrow> world \<Rightarrow> (error + ustr list) \<times> world" where
  "generate_batch_explanations env file_batch w =
     (let batch_prompt =
            batch_prompt_loop 0 file_batch (lit ''Explain each code snippet in exactly 10 words:\<newline>\<newline>'')
            @ lit ''Provide explanations as a numbered list, each exactly 10 words:''
      in (case call_llm env batch_prompt 0 3 w of
            (Inl err, w1) \<Rightarrow> (Inl err, w1)
          | (Inr response, w1) \<Rightarrow>
              (Inr (parse_batch_response (decimal env) response (length file_batch)), w1)))"

text \<open>The loop \<open>for j, explanation in enumerate(batch_explanations)\<close>, with \<open>idx = i + j\<close>.\<close>

fun assign_explanations :: "nat \<Rightarrow> ustr list \<Rightarrow> ustr list \<Rightarrow> ustr list" where
  "assign_explanations idx [] explanations = explanations"
| "assign_explanations idx (explanation # rest) explanations =
     assign_explanations (Suc idx) rest
       (if idx < length explanations then explanations[idx := explanation] else explanations)"

definition batch_data_of :: "source_file list \<Rightarrow> (ustr \<times> ustr \<times> ustr) list" where
  "batch_data_of batch =
     map (\<lambda>f. (rel_path f, contents f, drop 1 (file_ext f))) (filter (\<lambda>f. contents f \<noteq> []) batch)"

text \<open>
  The loop \<open>for i in range(0, len(all_files), batch_size)\<close>. \<open>range\<close> raises \<open>ValueError\<close>
  for a step of zero. An exception that escapes \<open>call_llm\<close> ends the run.
\<close>

function process_batches ::
  "environment \<Rightarrow> source_file list \<Rightarrow> nat \<Rightarrow> nat \<Rightarrow> ustr list \<Rightarrow> world \<Rightarrow> (error + ustr list) \<times> world" where
  "process_batches env files batch_size i explanations w =
     (if batch_size = 0 then (Inl (ValueError (lit ''range() arg 3 must not be zero'')), w)
      else if length files \<le> i then (Inr explanations, w)
      else
        let batch = take batch_size (drop i files);
            batch_data = batch_data_of batch
        in if batch_data \<noteq> [] then
             (case generate_batch_explanations env batch_data w of
                (Inl err, w1) \<Rightarrow> (Inl err, w1)
              | (Inr batch_explanations, w1) \<Rightarrow>
                  process_batches env files batch_size (i + batch_size)
                    (assign_explanations i batch_explanations explanations)
                    (if i + batch_size < length files then sleep (uniform env w1 2 5) w1 else w1))
           else process_batches env files batch_size (i + batch_size) explanations w)"
  by pat_completeness auto
termination
  by (relation "measure (\<lambda>(env, files, batch_size, i, explanations, w). length files - i)") auto

declare process_batches.simps [simp del]

record run_result =
  explanations :: "ustr list"
  quiz_md :: ustr

text \<open>
  \<open>save_pdf_from_markdown\<close>: the first renderer is tried; when it raises, the fallback is
  tried; when that raises too, the exception is raised again. A run writes each output
  file once, so that the verdict of a renderer is the environment's, given the output
  file.
\<close>

definition save_pdf_from_markdown :: "environment \<Rightarrow> ustr \<Rightarrow> error + unit" where
  "save_pdf_from_markdown env output_path =
     (if weasyprint env output_path then Inr ()
      else if pandoc_pdf env output_path then Inr ()
      else Inl RenderError)"

text \<open>
  \<open>process_folder\<close> on the collected files: the loop over the batches, then the three
  documents in the order of the source, the quiz being generated before the third. An
  exception of a \<open>save_pdf_from_markdown\<close> ends the run. The texts \<open>code_md\<close> and
  \<open>explanation_md\<close> do not enter the explanation sequence and are not built.
\<close>

definition process_folder :: "environment \<Rightarrow> ustr \<Rightarrow> world \<Rightarrow> (error + run_result) \<times> world" where
  "process_folder env folder_path w =
     (let files = all_files env folder_path;
          batch_size = min 4 (max 2 (length files div 10))
      in (case process_batches env files batch_size 0 (replicate (length files) []) w of
            (Inl err, w1) \<Rightarrow> (Inl err, w1)
          | (Inr expl, w1) \<Rightarrow>
              (case save_pdf_from_markdown env (lit ''code_only.pdf'') of
                 Inl err \<Rightarrow> (Inl err, w1)
               | Inr _ \<Rightarrow>
                   (case save_pdf_from_markdown env (lit ''code_with_explanation.pdf'') of
                      Inl err \<Rightarrow> (Inl err, w1)
                    | Inr _ \<Rightarrow>
                        (let quiz = generate_simple_quiz expl
                         in (case save_pdf_from_markdown env (lit ''quiz.pdf'') of
                               Inl err \<Rightarrow> (Inl err, w1)
                             | Inr _ \<Rightarrow>
                                 (Inr \<lparr>explanations = expl, quiz_md = quiz\<rparr>, w1)))))))"

text \<open>\<open>API_KEY\<close> is \<open>os.getenv(...)\<close>: \<open>None\<close> when the variable is not set.\<close>

definition main :: "environment \<Rightarrow> ustr option \<Rightarrow> ustr list \<Rightarrow> world \<Rightarrow> (error + run_result) \<times> world" where
  "main env API_KEY argv w =
     (if API_KEY = None \<or> API_KEY = Some []
      then (Inl (ValueError (lit ''OPENROUTER_API_KEY not set in environment variables.'')), w)
      else if length argv < 2 then (Inl (SystemExit 1), w)
      else if \<not> isdir env (argv ! 1) then (Inl (SystemExit 1), w)
      else process_folder env (argv ! 1) w)"

section \<open>Notions used to state the properties\<close>

text \<open>A Unicode table for examples: no decimal digit beyond \<open>0\<close> to \<open>9\<close>.\<close>

definition ascii_digits_only :: "nat \<Rightarrow> bool" where
  "ascii_digits_only c = False"

text \<open>The lines of a response that the parser's loop accepts.\<close>

definition matched_lines :: "(nat \<Rightarrow> bool) \<Rightarrow> ustr \<Rightarrow> ustr list" where
  "matched_lines nd response =
     filter (\<lambda>line. re_match_number nd (strip line) \<noteq> None) (split_nl response)"

text \<open>
  The specification's wording, independent of the regular expressions: a line begins with
  a decimal number followed by \<open>.\<close> or \<open>)\<close> when, for some \<open>n \<ge> 1\<close>, its first \<open>n\<close>
  characters are digits and the next one is \<open>.\<close> or \<open>)\<close>; stripping the numeric prefix and
  the leading whitespace removes the digits, that one character and the whitespace after it.
\<close>

definition begins_numbered :: "(nat \<Rightarrow> bool) \<Rightarrow> ustr \<Rightarrow> bool" where
  "begins_numbered nd line =
     list_ex (\<lambda>n. list_all (is_digit nd) (take n line) \<and> (line ! n = 46 \<or> line ! n = 41))
       [1..<length line]"

definition strip_numbering :: "(nat \<Rightarrow> bool) \<Rightarrow> ustr \<Rightarrow> ustr" where
  "strip_numbering nd line = dropWhile is_space (drop 1 (dropWhile (is_digit nd) line))"

text \<open>The entries of \<open>enumerate(explanations[:10])\<close> that the quiz loop turns into questions.\<close>

definition quiz_entries :: "ustr list \<Rightarrow> (nat \<times> ustr) list" where
  "quiz_entries xs =
     filter (\<lambda>(i, e). e \<noteq> [] \<and> \<not> startswith e warning_sign) (enumerate 0 (take 10 xs))"

text \<open>One iteration of the loop of \<open>call_llm\<close>: the outcome of its request, and the world once
  the request is made.\<close>

definition asked :: "environment \<Rightarrow> ustr \<Rightarrow> nat \<Rightarrow> world \<Rightarrow> outcome" where
  "asked env prompt mi w =
     respond env (length (posts w)) (FREE_MODELS ! (mi mod length FREE_MODELS)) (take 8000 prompt)"

definition posted :: "environment \<Rightarrow> ustr \<Rightarrow> nat \<Rightarrow> nat \<Rightarrow> nat \<Rightarrow> world \<Rightarrow> world" where
  "posted env prompt mi retries att w =
     w\<lparr>posts := posts w @
        [\<lparr>model_index = mi, model = FREE_MODELS ! (mi mod length FREE_MODELS),
          content = take 8000 prompt, attempt_no = att, budget = retries,
          got = asked env prompt mi w\<rparr>]\<rparr>"

text \<open>The requests made between two worlds.\<close>

definition new_posts :: "world \<Rightarrow> world \<Rightarrow> attempt_entry list" where
  "new_posts w w' = drop (length (posts w)) (posts w')"

text \<open>
  The attempts \<open>xs\<close> use the model indices that start at \<open>mi\<close>, advance by one after each
  rate-limited attempt and stay put otherwise, each with the model
  \<open>FREE_MODELS[index % len(FREE_MODELS)]\<close>.
\<close>

fun rotates_from :: "nat \<Rightarrow> attempt_entry list \<Rightarrow> bool" where
  "rotates_from mi [] = True"
| "rotates_from mi (x # rest) =
     (model_index x = mi \<and> model x = FREE_MODELS ! (mi mod length FREE_MODELS)
      \<and> rotates_from (if try_block (got x) = RateLimited then mi + 1 else mi) rest)"

text \<open>The triangular numbers.\<close>

fun tri :: "nat \<Rightarrow> nat" where
  "tri 0 = 0"
| "tri (Suc n) = Suc n + tri n"

text \<open>
  A world with nothing done yet, and environments for examples: the service answers the
  \<open>k\<close>-th request with the \<open>k\<close>-th outcome of a script, then with a default; the random
  source always yields 0; every path is a directory holding the given files; the first
  PDF renderer succeeds.
\<close>

definition fresh :: world where
  "fresh = \<lparr>posts = [], sleeps = []\<rparr>"

definition scripted :: "outcome list \<Rightarrow> outcome \<Rightarrow> source_file list \<Rightarrow> environment" where
  "scripted outs dflt files =
     \<lparr>respond = (\<lambda>k m c. if k < length outs then outs ! k else dflt),
      random = (\<lambda>k. 0), decimal = ascii_digits_only, isdir = (\<lambda>p. True),
      all_files = (\<lambda>p. files), weasyprint = (\<lambda>p. True), pandoc_pdf = (\<lambda>p. False)\<rparr>"

definition too_many :: outcome where
  "too_many = Response 429 (lit ''429 Client Error'') OtherError"

definition timed_out :: outcome where
  "timed_out = NoResponse (lit ''Read timed out.'')"

definition bad_request :: outcome where
  "bad_request = Response 400 (lit ''400 Client Error'') OtherError"

definition completion :: "ustr \<Rightarrow> outcome" where
  "completion t = Response 200 [] (Content t)"

text \<open>
  The texts that \<open>call_llm\<close> can return because of one outcome of a request, and the
  texts in which no numbered line is left empty once its numbering is removed.
\<close>

definition answer_texts :: "outcome \<Rightarrow> ustr list" where
  "answer_texts out =
     (case try_block out of Returned t \<Rightarrow> [t] | Caught e \<Rightarrow> [could_not e] | _ \<Rightarrow> [])"

definition no_bare_item :: "(nat \<Rightarrow> bool) \<Rightarrow> ustr \<Rightarrow> bool" where
  "no_bare_item nd t =
     list_all (\<lambda>line. re_sub_number nd (strip line) \<noteq> []) (matched_lines nd t)"

text \<open>Files for examples.\<close>

definition source :: "string \<Rightarrow> nat \<Rightarrow> string \<Rightarrow> source_file" where
  "source name n code =
     \<lparr>file_path = lit name, rel_path = lit name, file_ext = lit ''.py'', counter = n,
      contents = lit code\<rparr>"

definition two_files :: "source_file list" where
  "two_files = [source ''a.py'' 1 ''x = 1'', source ''b.py'' 2 ''y = 2'']"

definition four_files :: "source_file list" where
  "four_files = two_files @ [source ''c.py'' 3 ''z = 3'', source ''d.py'' 4 ''t = 4'']"

section \<open>Properties of the parser\<close>

lemma not_digit_dot: "\<not> is_digit nd 46" "\<not> is_digit nd 41"
  by (simp_all add: is_digit_def)

lemma split_at_digits:
  assumes "list_all P xs" "\<not> P y"
  shows "takeWhile P (xs @ y # ys) = xs" "dropWhile P (xs @ y # ys) = y # ys"
  using assms by (induction xs) auto

lemma begins_numbered_iff: "begins_numbered nd s \<longleftrightarrow> re_match_number nd s \<noteq> None"
proof
  assume "begins_numbered nd s"
  then obtain n where n: "1 \<le> n" "n < length s" "list_all (is_digit nd) (take n s)"
      "s ! n = 46 \<or> s ! n = 41"
    by (auto simp: begins_numbered_def list_ex_iff)
  have notd: "\<not> is_digit nd (s ! n)"
    using n(4) not_digit_dot by metis
  have s: "s = take n s @ s ! n # drop (Suc n) s"
    using n(2) by (simp add: id_take_nth_drop[symmetric])
  have tw: "takeWhile (is_digit nd) s = take n s"
    using split_at_digits(1)[OF n(3) notd] s by metis
  have dw: "dropWhile (is_digit nd) s = s ! n # drop (Suc n) s"
    using split_at_digits(2)[OF n(3) notd] s by metis
  have "take n s \<noteq> []"
    using n(1,2) by auto
  then show "re_match_number nd s \<noteq> None"
    using tw dw n(4) by (auto simp: re_match_number_def Let_def)
next
  assume m: "re_match_number nd s \<noteq> None"
  let ?n = "length (takeWhile (is_digit nd) s)"
  from m have ne: "takeWhile (is_digit nd) s \<noteq> []"
    by (auto simp: re_match_number_def Let_def)
  from m obtain c cs where dw: "dropWhile (is_digit nd) s = c # cs" and c: "c = 46 \<or> c = 41"
    by (auto simp: re_match_number_def Let_def split: list.splits if_splits)
  have s: "s = takeWhile (is_digit nd) s @ c # cs"
    using dw by (metis takeWhile_dropWhile_id)
  have len: "?n < length s"
    using arg_cong[OF s, of length] by simp
  have nth: "s ! ?n = c"
    using arg_cong[OF s, of "\<lambda>l. l ! ?n"] by (simp add: nth_append)
  have "take ?n s = takeWhile (is_digit nd) s"
    by (simp add: takeWhile_eq_take[symmetric])
  then have "list_all (is_digit nd) (take ?n s)"
    by (auto simp: list_all_iff dest: set_takeWhileD)
  then show "begins_numbered nd s"
    using ne len c nth unfolding begins_numbered_def list_ex_iff
    by (intro bexI[of _ ?n]) (auto simp: Suc_le_eq)
qed

lemma strip_numbering_eq:
  assumes "re_match_number nd s \<noteq> None"
  shows "re_sub_number nd s = strip_numbering nd s"
proof -
  let ?n = "length (takeWhile (is_digit nd) s)"
  from assms obtain k where k: "re_match_number nd s = Some k"
    by auto
  then have "k = Suc ?n"
    unfolding re_match_number_def Let_def by (auto split: if_splits list.splits)
  with k have m: "re_match_number nd s = Some (Suc ?n)"
    by simp
  have "drop (Suc ?n) s = drop 1 (drop ?n s)"
    by simp
  also have "drop ?n s = dropWhile (is_digit nd) s"
    by (simp add: dropWhile_eq_drop)
  finally show ?thesis
    by (simp add: re_sub_number_def m strip_numbering_def)
qed

lemma scan_lines_eq:
  "scan_lines nd ls acc =
     acc @ map (\<lambda>line. re_sub_number nd (strip line))
             (filter (\<lambda>line. re_match_number nd (strip line) \<noteq> None) ls)"
  by (induction ls arbitrary: acc) auto

lemma matched_lines_numbered:
  "matched_lines nd response = filter (\<lambda>line. begins_numbered nd (strip line)) (split_nl response)"
  by (simp add: matched_lines_def begins_numbered_iff)

lemma parse_matched:
  "parse_batch_response nd response (length (matched_lines nd response))
     = map (\<lambda>line. strip_numbering nd (strip line)) (matched_lines nd response)"
proof -
  have "map (\<lambda>line. re_sub_number nd (strip line)) (matched_lines nd response)
        = map (\<lambda>line. strip_numbering nd (strip line)) (matched_lines nd response)"
    by (rule map_cong) (auto simp: matched_lines_def strip_numbering_eq)
  then show ?thesis
    by (simp add: parse_batch_response_def scan_lines_eq matched_lines_def)
qed

lemma generic_explanations_0: "generic_explanations 0 = []"
  by (simp add: generic_explanations_def)

lemma generic_explanations_Suc:
  "generic_explanations (Suc n) = generic_explanations n @ [lit ''Code file '' @ str_of_nat (Suc n)]"
  by (simp add: generic_explanations_def)

lemma generic_explanations_numeral:
  "generic_explanations (numeral k)
     = generic_explanations (pred_numeral k) @ [lit ''Code file '' @ str_of_nat (numeral k)]"
  by (simp add: numeral_eq_Suc generic_explanations_Suc)

lemmas parser_eval = lit_def is_space_def is_digit_def strip_def re_match_number_def
  re_sub_number_def parse_batch_response_def matched_lines_def ascii_digits_only_def
  str_of_nat.simps Let_def generic_explanations_0 generic_explanations_Suc
  generic_explanations_numeral begins_numbered_def strip_numbering_def upt_conv_Cons

lemma length_generic_explanations: "length (generic_explanations n) = n"
  by (simp add: generic_explanations_def)

lemma generic_explanations_upt:
  "generic_explanations n = map (\<lambda>i. lit ''Code file '' @ str_of_nat i) [1..<Suc n]"
proof -
  have "[1..<Suc n] = map Suc [0..<n]"
    by (simp add: map_Suc_upt)
  then show ?thesis
    by (simp add: generic_explanations_def)
qed


text \<open>
  C2. The parser is a total function (no step of it can raise) and returns exactly
  \<open>expected_count\<close> strings. When the number of matched lines differs from
  \<open>expected_count\<close>, the result is the placeholder sequence \<open>Code file i\<close> for
  \<open>i = 1, ..., expected_count\<close>; otherwise it is the sequence of all the matched lines,
  each with its numbering removed. There is no third case.
\<close>

theorem parser_total_all_or_nothing:
  "length (parse_batch_response nd response expected_count) = expected_count
   \<and> (length (matched_lines nd response) \<noteq> expected_count \<longrightarrow>
        parse_batch_response nd response expected_count
          = map (\<lambda>i. lit ''Code file '' @ str_of_nat i) [1..<Suc expected_count])
   \<and> (length (matched_lines nd response) = expected_count \<longrightarrow>
        parse_batch_response nd response expected_count
          = map (\<lambda>line. re_sub_number nd (strip line)) (matched_lines nd response))"
  unfolding parse_batch_response_def Let_def matched_lines_def
  by (simp add: scan_lines_eq length_generic_explanations generic_explanations_upt del: upt_Suc)

theorem parser_total_all_or_nothing_witness:
  "length (matched_lines ascii_digits_only (lit ''1. a\<newline>foo'')) \<noteq> 2
   \<and> length (parse_batch_response ascii_digits_only (lit ''1. a\<newline>foo'') 2) = 2
   \<and> parse_batch_response ascii_digits_only (lit ''1. a\<newline>foo'') 2
       = [lit ''Code file 1'', lit ''Code file 2'']
   \<and> length (matched_lines ascii_digits_only (lit ''1. a\<newline>foo'')) = 1
   \<and> parse_batch_response ascii_digits_only (lit ''1. a\<newline>foo'') 1 = [lit ''a'']"
  using parser_total_all_or_nothing[of ascii_digits_only "lit ''1. a\<newline>foo''" 2]
    parser_total_all_or_nothing[of ascii_digits_only "lit ''1. a\<newline>foo''" 1]
  by (simp add: parser_eval)

text \<open>
  C3, as amended. The parser trims each line before it looks for the number. So: when
  exactly \<open>K\<close> lines of the response, once surrounding whitespace is trimmed, begin with a
  decimal number followed by \<open>.\<close> or \<open>)\<close>, and \<open>expected_count = K\<close>, the parser returns
  those \<open>K\<close> lines in line order, each trimmed of surrounding whitespace and with the numeric
  prefix and the whitespace after it removed. The scenario of the specification holds.
\<close>

theorem parser_alignment:
  assumes "length (filter (\<lambda>line. begins_numbered nd (strip line)) (split_nl response)) = K"
  shows "parse_batch_response nd response K
           = map (\<lambda>line. strip_numbering nd (strip line))
               (filter (\<lambda>line. begins_numbered nd (strip line)) (split_nl response))
         \<and> parse_batch_response nd (lit ''1. Parses input\<newline>2. Validates output\<newline>'') 2
           = [lit ''Parses input'', lit ''Validates output'']"
proof
  show "parse_batch_response nd response K
           = map (\<lambda>line. strip_numbering nd (strip line))
               (filter (\<lambda>line. begins_numbered nd (strip line)) (split_nl response))"
    using parse_matched[of nd response] assms by (simp add: matched_lines_numbered)
  show "parse_batch_response nd (lit ''1. Parses input\<newline>2. Validates output\<newline>'') 2
           = [lit ''Parses input'', lit ''Validates output'']"
    by (simp add: parser_eval)
qed

theorem parser_alignment_witness:
  "length (filter (\<lambda>line. begins_numbered ascii_digits_only (strip line))
            (split_nl (lit '' 1) first  \<newline>intro\<newline>22. second''))) = 2
   \<and> parse_batch_response ascii_digits_only (lit '' 1) first  \<newline>intro\<newline>22. second'') 2
       = [lit ''first'', lit ''second'']"
  using parser_alignment[of ascii_digits_only "lit '' 1) first  \<newline>intro\<newline>22. second''" 2]
  by (simp add: parser_eval)

text \<open>
  C3 as stated fails: of the two lines below only the second begins with a number, so
  \<open>K = 1\<close> and the claim promises \<open>["b"]\<close>; the parser trims the first line, counts two
  matches and returns the placeholder.
\<close>

theorem parser_alignment_literal_counterexample:
  "length (filter (begins_numbered ascii_digits_only) (split_nl (lit '' 1. a\<newline>2. b''))) = 1
   \<and> map (strip_numbering ascii_digits_only)
        (filter (begins_numbered ascii_digits_only) (split_nl (lit '' 1. a\<newline>2. b''))) = [lit ''b'']
   \<and> parse_batch_response ascii_digits_only (lit '' 1. a\<newline>2. b'') 1 = [lit ''Code file 1'']"
  by (simp add: parser_eval)

section \<open>Properties of the quiz\<close>

lemma quiz_loop_eq:
  "quiz_loop i xs acc =
     acc @ concat (map (\<lambda>(k, e). quiz_question k e)
                  (filter (\<lambda>(k, e). e \<noteq> [] \<and> \<not> startswith e warning_sign) (enumerate i xs)))"
  by (induction xs arbitrary: i acc) auto

lemma generate_simple_quiz_eq:
  "generate_simple_quiz xs
     = quiz_header @ concat (map (\<lambda>(i, e). quiz_question i e) (quiz_entries xs))"
  by (simp add: generate_simple_quiz_def quiz_loop_eq quiz_entries_def)

lemma set_quiz_entries:
  "set (quiz_entries xs) =
     {(i, xs ! i) | i. i < 10 \<and> i < length xs \<and> xs ! i \<noteq> [] \<and> \<not> startswith (xs ! i) warning_sign}"
  by (auto simp: quiz_entries_def in_set_enumerate_eq)

lemma length_quiz_entries: "length (quiz_entries xs) \<le> 10"
proof -
  have "length (quiz_entries xs) \<le> length (enumerate 0 (take 10 xs))"
    unfolding quiz_entries_def by (rule length_filter_le)
  then show ?thesis by simp
qed

lemmas quiz_eval = quiz_entries_def startswith_def warning_sign_def lit_def enumerate_simps

text \<open>
  C10. The quiz is the header followed by one question per entry of \<open>quiz_entries\<close>, in
  order. These entries are exactly the pairs \<open>(i, explanations[i])\<close> with \<open>i < 10\<close> whose
  explanation is neither empty nor starts with the warning sign: at most ten, none from
  beyond the tenth explanation, and possibly fewer than there are files.
\<close>

theorem quiz_truncates_and_filters:
  "generate_simple_quiz xs
     = quiz_header @ concat (map (\<lambda>(i, e). quiz_question i e) (quiz_entries xs))
   \<and> set (quiz_entries xs) =
       {(i, xs ! i) | i. i < 10 \<and> i < length xs \<and> xs ! i \<noteq> []
                         \<and> \<not> startswith (xs ! i) warning_sign}
   \<and> length (quiz_entries xs) \<le> 10
   \<and> generate_simple_quiz xs = generate_simple_quiz (take 10 xs)
   \<and> quiz_entries [lit ''Parses input'', [], warning_sign @ lit '' Explanation unavailable'']
       = [(0, lit ''Parses input'')]"
proof (intro conjI)
  show "generate_simple_quiz xs = generate_simple_quiz (take 10 xs)"
    by (simp add: generate_simple_quiz_def)
  show "quiz_entries [lit ''Parses input'', [], warning_sign @ lit '' Explanation unavailable'']
       = [(0, lit ''Parses input'')]"
    by (simp add: quiz_eval)
qed (rule generate_simple_quiz_eq set_quiz_entries length_quiz_entries)+

section \<open>Properties of \<open>call_llm\<close>\<close>

lemma call_llm_from_done:
  "retries \<le> att \<Longrightarrow> call_llm_from env prompt mi retries att w = (Inr unavailable, w)"
  by (simp add: call_llm_from.simps)

lemma call_llm_from_step:
  "att < retries \<Longrightarrow>
   call_llm_from env prompt mi retries att w =
     (case try_block (asked env prompt mi w) of
        RateLimited \<Rightarrow>
          call_llm_from env prompt (mi + 1) (retries - 1) 0
            (sleep (rate_limit_wait att (uniform env (posted env prompt mi retries att w) 0 5))
               (posted env prompt mi retries att w))
      | Returned t \<Rightarrow> (Inr t, posted env prompt mi retries att w)
      | Escaped \<Rightarrow> (Inl LookupFailure, posted env prompt mi retries att w)
      | Caught e \<Rightarrow>
          if att = retries - 1 then (Inr (could_not e), posted env prompt mi retries att w)
          else call_llm_from env prompt mi retries (Suc att)
                 (sleep (error_wait att (uniform env (posted env prompt mi retries att w) 0 3))
                    (posted env prompt mi retries att w)))"
  by (subst call_llm_from.simps) (simp add: asked_def posted_def Let_def split: try_result.split)

lemma posts_sleep [simp]: "posts (sleep t w) = posts w"
  by (simp add: sleep_def)

lemma sleeps_sleep [simp]: "sleeps (sleep t w) = sleeps w @ [t]"
  by (simp add: sleep_def)

lemma posts_posted [simp]:
  "posts (posted env prompt mi retries att w) =
     posts w @ [\<lparr>model_index = mi, model = FREE_MODELS ! (mi mod length FREE_MODELS),
          content = take 8000 prompt, attempt_no = att, budget = retries,
          got = asked env prompt mi w\<rparr>]"
  by (simp add: posted_def)

lemma sleeps_posted [simp]: "sleeps (posted env prompt mi retries att w) = sleeps w"
  by (simp add: posted_def)

text \<open>Induction over the attempts of \<open>call_llm_from\<close>, one case per way an attempt ends.\<close>

lemma call_llm_from_cases [case_names exhausted rate_limited returned escaped last_failure retry]:
  assumes "\<And>env prompt mi retries att w. retries \<le> att \<Longrightarrow> P env prompt mi retries att w"
    and "\<And>env prompt mi retries att w.
           att < retries \<Longrightarrow> try_block (asked env prompt mi w) = RateLimited \<Longrightarrow>
           P env prompt (mi + 1) (retries - 1) 0
             (sleep (rate_limit_wait att (uniform env (posted env prompt mi retries att w) 0 5))
                (posted env prompt mi retries att w)) \<Longrightarrow>
           P env prompt mi retries att w"
    and "\<And>env prompt mi retries att w t.
           att < retries \<Longrightarrow> try_block (asked env prompt mi w) = Returned t \<Longrightarrow>
           P env prompt mi retries att w"
    and "\<And>env prompt mi retries att w.
           att < retries \<Longrightarrow> try_block (asked env prompt mi w) = Escaped \<Longrightarrow>
           P env prompt mi retries att w"
    and "\<And>env prompt mi retries att w e.
           Suc att = retries \<Longrightarrow> try_block (asked env prompt mi w) = Caught e \<Longrightarrow>
           P env prompt mi retries att w"
    and "\<And>env prompt mi retries att w e.
           Suc att < retries \<Longrightarrow> try_block (asked env prompt mi w) = Caught e \<Longrightarrow>
           P env prompt mi retries (Suc att)
             (sleep (error_wait att (uniform env (posted env prompt mi retries att w) 0 3))
                (posted env prompt mi retries att w)) \<Longrightarrow>
           P env prompt mi retries att w"
  shows "P env prompt mi retries att w"
proof (induction env prompt mi retries att w rule: call_llm_from.induct)
  case (1 env prompt mi retries att w)
  show ?case
  proof (cases "retries \<le> att")
    case True
    then show ?thesis by (rule assms(1))
  next
    case False
    then have lt: "att < retries" by simp
    show ?thesis
    proof (cases "try_block (asked env prompt mi w)")
      case RateLimited
      have "P env prompt (mi + 1) (retries - 1) 0
             (sleep (rate_limit_wait att (uniform env (posted env prompt mi retries att w) 0 5))
                (posted env prompt mi retries att w))"
        using "1.IH"(1)[OF False refl refl refl] RateLimited
        by (simp add: asked_def posted_def)
      with lt RateLimited show ?thesis by (rule assms(2))
    next
      case (Returned t)
      with lt show ?thesis by (rule assms(3))
    next
      case (Caught e)
      show ?thesis
      proof (cases "Suc att = retries")
        case True
        then show ?thesis using Caught by (rule assms(5))
      next
        case ne: False
        with lt have lt': "Suc att < retries" by simp
        have "att \<noteq> retries - 1" using ne lt by auto
        then have "P env prompt mi retries (Suc att)
             (sleep (error_wait att (uniform env (posted env prompt mi retries att w) 0 3))
                (posted env prompt mi retries att w))"
          using "1.IH"(2)[OF False refl refl refl, of e] Caught
          by (simp add: asked_def posted_def)
        with lt' Caught show ?thesis by (rule assms(6))
      qed
    next
      case Escaped
      with lt show ?thesis by (rule assms(4))
    qed
  qed
qed

lemma tri_formula: "tri n = n * (n + 1) div 2"
  by (induction n) auto

lemma step_rate_limited:
  "att < retries \<Longrightarrow> try_block (asked env prompt mi w) = RateLimited \<Longrightarrow>
   call_llm_from env prompt mi retries att w =
     call_llm_from env prompt (mi + 1) (retries - 1) 0
       (sleep (rate_limit_wait att (uniform env (posted env prompt mi retries att w) 0 5))
          (posted env prompt mi retries att w))"
  by (simp add: call_llm_from_step)

lemma step_returned:
  "att < retries \<Longrightarrow> try_block (asked env prompt mi w) = Returned t \<Longrightarrow>
   call_llm_from env prompt mi retries att w = (Inr t, posted env prompt mi retries att w)"
  by (simp add: call_llm_from_step)

lemma step_escaped:
  "att < retries \<Longrightarrow> try_block (asked env prompt mi w) = Escaped \<Longrightarrow>
   call_llm_from env prompt mi retries att w
     = (Inl LookupFailure, posted env prompt mi retries att w)"
  by (simp add: call_llm_from_step)

lemma step_last_failure:
  "Suc att = retries \<Longrightarrow> try_block (asked env prompt mi w) = Caught e \<Longrightarrow>
   call_llm_from env prompt mi retries att w
     = (Inr (could_not e), posted env prompt mi retries att w)"
  by (subst call_llm_from_step) auto

lemma step_retry:
  "Suc att < retries \<Longrightarrow> try_block (asked env prompt mi w) = Caught e \<Longrightarrow>
   call_llm_from env prompt mi retries att w =
     call_llm_from env prompt mi retries (Suc att)
       (sleep (error_wait att (uniform env (posted env prompt mi retries att w) 0 3))
          (posted env prompt mi retries att w))"
  by (subst call_llm_from_step) auto

lemma call_llm_from_trace:
  "\<exists>new. posts (snd (call_llm_from env prompt mi retries att w)) = posts w @ new
         \<and> rotates_from mi new
         \<and> (att < retries \<longrightarrow> new \<noteq> [])
         \<and> length new \<le> (retries - att) + tri (retries - 1)"
proof (induction env prompt mi retries att w rule: call_llm_from_cases)
  case (exhausted env prompt mi retries att w)
  then show ?case by (simp add: call_llm_from_done)
next
  case (rate_limited env prompt mi retries att w)
  then obtain new where new:
    "posts (snd (call_llm_from env prompt (mi + 1) (retries - 1) 0
        (sleep (rate_limit_wait att (uniform env (posted env prompt mi retries att w) 0 5))
           (posted env prompt mi retries att w))))
     = posts (posted env prompt mi retries att w) @ new"
    "rotates_from (mi + 1) new" "length new \<le> (retries - 1) + tri (retries - 1 - 1)"
    by auto
  have "retries - 1 + tri (retries - 1 - 1) = tri (retries - 1)"
    by (cases "retries - 1") auto
  with new(3) rate_limited(1) have "Suc (length new) \<le> (retries - att) + tri (retries - 1)"
    by simp
  with new(1,2) rate_limited(1,2) show ?case
    by (simp add: step_rate_limited[OF rate_limited(1,2)])
next
  case (returned env prompt mi retries att w t)
  then show ?case by (simp add: step_returned[OF returned])
next
  case (escaped env prompt mi retries att w)
  then show ?case by (simp add: step_escaped[OF escaped])
next
  case (last_failure env prompt mi retries att w e)
  then show ?case by (simp add: step_last_failure[OF last_failure])
next
  case (retry env prompt mi retries att w e)
  then obtain new where new:
    "posts (snd (call_llm_from env prompt mi retries (Suc att)
        (sleep (error_wait att (uniform env (posted env prompt mi retries att w) 0 3))
           (posted env prompt mi retries att w))))
     = posts (posted env prompt mi retries att w) @ new"
    "rotates_from mi new" "length new \<le> (retries - Suc att) + tri (retries - 1)"
    by auto
  from new(3) retry(1) have "Suc (length new) \<le> (retries - att) + tri (retries - 1)"
    by simp
  with new(1,2) retry(1,2) show ?case
    by (simp add: step_retry[OF retry(1,2)])
qed

lemma call_llm_from_sleeps:
  "\<exists>more. sleeps (snd (call_llm_from env prompt mi retries att w)) = sleeps w @ more"
proof (induction env prompt mi retries att w rule: call_llm_from_cases)
  case (exhausted env prompt mi retries att w)
  then show ?case by (simp add: call_llm_from_done)
next
  case (rate_limited env prompt mi retries att w)
  then show ?case by (auto simp: step_rate_limited[OF rate_limited(1,2)])
next
  case (returned env prompt mi retries att w t)
  then show ?case by (simp add: step_returned[OF returned])
next
  case (escaped env prompt mi retries att w)
  then show ?case by (simp add: step_escaped[OF escaped])
next
  case (last_failure env prompt mi retries att w e)
  then show ?case by (simp add: step_last_failure[OF last_failure])
next
  case (retry env prompt mi retries att w e)
  then show ?case by (auto simp: step_retry[OF retry(1,2)])
qed

lemma call_llm_all_rate_limited:
  assumes "\<forall>k m c. length (posts w) \<le> k \<and> k < length (posts w) + retries
             \<longrightarrow> try_block (respond env k m c) = RateLimited"
  shows "fst (call_llm_from env prompt mi retries 0 w) = Inr unavailable
         \<and> length (posts (snd (call_llm_from env prompt mi retries 0 w))) = length (posts w) + retries
         \<and> sleeps (snd (call_llm_from env prompt mi retries 0 w))
             = sleeps w @ map (\<lambda>j. rate_limit_wait 0 (5 * random env (length (sleeps w) + j)))
                            [0..<retries]"
  using assms
proof (induction retries arbitrary: mi w)
  case 0
  then show ?case by (simp add: call_llm_from_done)
next
  case (Suc r)
  let ?w1 = "posted env prompt mi (Suc r) 0 w"
  let ?w2 = "sleep (rate_limit_wait 0 (uniform env ?w1 0 5)) ?w1"
  have rl: "try_block (asked env prompt mi w) = RateLimited"
    using Suc.prems by (simp add: asked_def)
  have step: "call_llm_from env prompt mi (Suc r) 0 w = call_llm_from env prompt (mi + 1) r 0 ?w2"
    using step_rate_limited[of 0 "Suc r", OF _ rl] by simp
  have "\<forall>k m c. length (posts ?w2) \<le> k \<and> k < length (posts ?w2) + r
             \<longrightarrow> try_block (respond env k m c) = RateLimited"
    using Suc.prems by simp
  from Suc.IH[OF this, of "mi + 1"] have ih:
    "fst (call_llm_from env prompt (mi + 1) r 0 ?w2) = Inr unavailable"
    "length (posts (snd (call_llm_from env prompt (mi + 1) r 0 ?w2))) = length (posts ?w2) + r"
    "sleeps (snd (call_llm_from env prompt (mi + 1) r 0 ?w2))
       = sleeps ?w2 @ map (\<lambda>j. rate_limit_wait 0 (5 * random env (length (sleeps ?w2) + j))) [0..<r]"
    by auto
  have "[0..<Suc r] = 0 # map Suc [0..<r]"
    by (simp add: upt_conv_Cons map_Suc_upt del: upt_Suc)
  then show ?case
    using ih by (simp add: step uniform_def del: upt_Suc)
qed

lemmas run_eval = call_llm_def call_llm_from.simps scripted_def fresh_def too_many_def
  timed_out_def bad_request_def completion_def Let_def sleep_def uniform_def
  rate_limit_wait_def error_wait_def new_posts_def lit_def

lemma new_posts_call_llm_from:
  "\<exists>new. new_posts w (snd (call_llm_from env prompt mi retries att w)) = new
         \<and> posts (snd (call_llm_from env prompt mi retries att w)) = posts w @ new
         \<and> rotates_from mi new \<and> (att < retries \<longrightarrow> new \<noteq> [])
         \<and> length new \<le> (retries - att) + tri (retries - 1)"
  using call_llm_from_trace[of env prompt mi retries att w] by (auto simp: new_posts_def)

lemma tri_pred: "n + tri (n - 1) = tri n"
  by (cases n) auto

text \<open>
  The bound that holds. One call of \<open>call_llm\<close> with budget \<open>retries\<close> makes at most
  \<open>retries * (retries + 1) / 2\<close> requests, so at most 6 with the default budget of 3: the
  new call on a rate limit has one retry less but starts its loop again at attempt 0.
\<close>

lemma call_llm_attempts_bound:
  "length (new_posts w (snd (call_llm env prompt mi retries w))) \<le> retries * (retries + 1) div 2
   \<and> length (new_posts w (snd (call_llm env prompt mi 3 w))) \<le> 6"
proof -
  have "length (new_posts w (snd (call_llm env prompt mi r w))) \<le> r * (r + 1) div 2" for r
    using new_posts_call_llm_from[of w env prompt mi r 0] tri_pred[of r]
    by (auto simp: call_llm_def tri_formula)
  from this[of retries] this[of 3] show ?thesis by simp
qed

text \<open>
  C6. The budget is meant to be shared along the chain: the call made on a rate limit gets
  \<open>retries - 1\<close>. But that call starts its loop again at attempt 0, so the attempts spent
  on other failures are not counted against it. Two timeouts, a rate limit, a timeout and
  two rate limits make six requests under the default budget of 3, on the models of index
  0, 0, 0, 1, 1 and 2; when the failures are all rate limits, or all other failures, the
  requests are three.
\<close>

theorem call_llm_attempts_exceed_budget:
  "map model_index (new_posts fresh (snd (call_llm
      (scripted [timed_out, timed_out, too_many, timed_out, too_many, too_many] timed_out [])
      (lit ''hi'') 0 3 fresh))) = [0, 0, 0, 1, 1, 2]
   \<and> length (new_posts fresh (snd (call_llm (scripted [] too_many []) (lit ''hi'') 0 3 fresh))) = 3
   \<and> length (new_posts fresh (snd (call_llm (scripted [] timed_out []) (lit ''hi'') 0 3 fresh))) = 3"
  by (simp add: run_eval)

lemma rotates_from_nth:
  "rotates_from mi xs \<Longrightarrow> Suc k < length xs \<Longrightarrow>
   model (xs ! k) = FREE_MODELS ! (model_index (xs ! k) mod length FREE_MODELS)
   \<and> model (xs ! Suc k) = FREE_MODELS ! (model_index (xs ! Suc k) mod length FREE_MODELS)
   \<and> model_index (xs ! Suc k)
       = (if try_block (got (xs ! k)) = RateLimited then model_index (xs ! k) + 1
          else model_index (xs ! k))"
proof (induction xs arbitrary: mi k)
  case Nil
  then show ?case by simp
next
  case (Cons x xs)
  show ?case
  proof (cases k)
    case 0
    with Cons.prems show ?thesis by (cases xs) auto
  next
    case (Suc j)
    with Cons.prems Cons.IH[of _ j] show ?thesis by auto
  qed
qed

text \<open>
  C7. Among the attempts of one call of \<open>call_llm\<close>, each uses the model
  \<open>FREE_MODELS[index % len(FREE_MODELS)]\<close> of its index; after a rate-limited attempt with
  index \<open>i\<close> the next attempt has index \<open>i + 1\<close>, hence model \<open>(i + 1) mod M\<close>; after any
  other attempt the index stays; so the index never decreases. The first index is the one
  the caller gave.
\<close>

theorem rotation_deterministic:
  assumes "new = new_posts w (snd (call_llm env prompt mi retries w))"
    and "Suc k < length new"
  shows "model (new ! k) = FREE_MODELS ! (model_index (new ! k) mod length FREE_MODELS)
     \<and> (try_block (got (new ! k)) = RateLimited \<longrightarrow>
          model_index (new ! Suc k) = model_index (new ! k) + 1
          \<and> model (new ! Suc k) = FREE_MODELS ! ((model_index (new ! k) + 1) mod length FREE_MODELS))
     \<and> (try_block (got (new ! k)) \<noteq> RateLimited \<longrightarrow>
          model_index (new ! Suc k) = model_index (new ! k))
     \<and> model_index (new ! k) \<le> model_index (new ! Suc k)
     \<and> model_index (new ! 0) = mi"
proof -
  have r: "rotates_from mi new"
    using new_posts_call_llm_from[of w env prompt mi retries 0] assms(1)
    by (auto simp: call_llm_def)
  have "model_index (new ! 0) = mi"
    using r assms(2) by (cases new) auto
  with rotates_from_nth[OF r assms(2)] show ?thesis by auto
qed

theorem rotation_deterministic_witness:
  "Suc 2 < length (new_posts fresh (snd (call_llm
      (scripted [too_many, timed_out, too_many] timed_out []) (lit ''hi'') 0 3 fresh)))
   \<and> map (\<lambda>a. (model_index a, model a, try_block (got a) = RateLimited))
       (new_posts fresh (snd (call_llm
          (scripted [too_many, timed_out, too_many] timed_out []) (lit ''hi'') 0 3 fresh)))
     = [(0, lit ''qwen/qwen3-coder:free'', True), (1, lit ''google/gemma-2-9b-it:free'', False),
        (1, lit ''google/gemma-2-9b-it:free'', True),
        (2, lit ''mistralai/mistral-7b-instruct:free'', False)]"
  using rotation_deterministic[OF refl, of 2 fresh
      "scripted [too_many, timed_out, too_many] timed_out []" "lit ''hi''" 0 3]
  by (simp add: run_eval FREE_MODELS_def)

text \<open>
  C5, as amended. A response with a 4xx status other than 429 is handled like every
  other request failure. On the last attempt of the loop (\<open>attempt = retries - 1\<close>)
  \<open>call_llm\<close> returns at once the placeholder text that embeds the cause, with no further
  request. On an earlier attempt it waits and makes a further request with the same model.
\<close>

theorem client_error_retried_like_any_failure:
  assumes "att < retries"
    and "asked env prompt mi w = Response status e b"
    and "400 \<le> status" "status < 500" "status \<noteq> 429"
  shows "(Suc att = retries \<longrightarrow>
            call_llm_from env prompt mi retries att w
              = (Inr (could_not e), posted env prompt mi retries att w))
       \<and> (Suc att < retries \<longrightarrow>
            call_llm_from env prompt mi retries att w
              = call_llm_from env prompt mi retries (Suc att)
                  (sleep (error_wait att (uniform env (posted env prompt mi retries att w) 0 3))
                     (posted env prompt mi retries att w))
            \<and> length (posts w) + 2 \<le> length (posts (snd (call_llm_from env prompt mi retries att w)))
            \<and> model_index (posts (snd (call_llm_from env prompt mi retries att w))
                              ! (length (posts w) + 1)) = mi)"
proof (intro conjI impI)
  have c: "try_block (asked env prompt mi w) = Caught e"
    using assms(2-5) by simp
  {
    assume "Suc att = retries"
    then show "call_llm_from env prompt mi retries att w
              = (Inr (could_not e), posted env prompt mi retries att w)"
      using c by (rule step_last_failure)
  }
  assume lt: "Suc att < retries"
  let ?w' = "sleep (error_wait att (uniform env (posted env prompt mi retries att w) 0 3))
                     (posted env prompt mi retries att w)"
  show eq: "call_llm_from env prompt mi retries att w
              = call_llm_from env prompt mi retries (Suc att) ?w'"
    using lt c by (rule step_retry)
  from call_llm_from_trace[of env prompt mi retries "Suc att" ?w'] lt
  obtain new where new: "posts (snd (call_llm_from env prompt mi retries (Suc att) ?w'))
      = posts ?w' @ new" "rotates_from mi new" "new \<noteq> []"
    by auto
  then obtain x xs where x: "new = x # xs" "model_index x = mi"
    by (cases new) auto
  show "length (posts w) + 2 \<le> length (posts (snd (call_llm_from env prompt mi retries att w)))"
    using new(1) x by (simp add: eq)
  show "model_index (posts (snd (call_llm_from env prompt mi retries att w))
                              ! (length (posts w) + 1)) = mi"
    using new(1) x by (simp add: eq nth_append)
qed

theorem client_error_retried_like_any_failure_witness:
  "asked (scripted [bad_request, completion (lit ''1. ok'')] timed_out []) (lit ''hi'') 0 fresh
     = Response 400 (lit ''400 Client Error'') OtherError
   \<and> call_llm_from (scripted [bad_request, bad_request, bad_request] timed_out []) (lit ''hi'') 0 3 2
        (posted (scripted [bad_request, bad_request, bad_request] timed_out []) (lit ''hi'') 0 3 1
          (posted (scripted [bad_request, bad_request, bad_request] timed_out []) (lit ''hi'') 0 3 0 fresh))
      = (Inr (could_not (lit ''400 Client Error'')),
         posted (scripted [bad_request, bad_request, bad_request] timed_out []) (lit ''hi'') 0 3 2
          (posted (scripted [bad_request, bad_request, bad_request] timed_out []) (lit ''hi'') 0 3 1
          (posted (scripted [bad_request, bad_request, bad_request] timed_out []) (lit ''hi'') 0 3 0 fresh)))
   \<and> length (posts (snd (call_llm_from (scripted [bad_request, completion (lit ''1. ok'')] timed_out [])
         (lit ''hi'') 0 3 0 fresh))) = 2"
  using client_error_retried_like_any_failure[of 0 3
      "scripted [bad_request, completion (lit ''1. ok'')] timed_out []" "lit ''hi''" 0 fresh
      400 "lit ''400 Client Error''" OtherError]
    client_error_retried_like_any_failure[of 2 3
      "scripted [bad_request, bad_request, bad_request] timed_out []" "lit ''hi''" 0
      "posted (scripted [bad_request, bad_request, bad_request] timed_out []) (lit ''hi'') 0 3 1
          (posted (scripted [bad_request, bad_request, bad_request] timed_out []) (lit ''hi'') 0 3 0 fresh)"
      400 "lit ''400 Client Error''" OtherError]
  by (simp add: run_eval asked_def posted_def)

text \<open>
  C5 as stated fails: after a 400 on the first attempt \<open>call_llm\<close> makes a second request
  with the same model, and returns its completion.
\<close>

theorem no_retry_on_client_error_counterexample:
  "fst (call_llm (scripted [bad_request, completion (lit ''1. ok'')] timed_out [])
          (lit ''hi'') 0 3 fresh) = Inr (lit ''1. ok'')
   \<and> map (\<lambda>a. (model_index a, attempt_no a, got a))
       (new_posts fresh (snd (call_llm (scripted [bad_request, completion (lit ''1. ok'')] timed_out [])
          (lit ''hi'') 0 3 fresh)))
     = [(0, 0, Response 400 (lit ''400 Client Error'') OtherError),
        (0, 1, Response 200 [] (Content (lit ''1. ok'')))]"
  by (simp add: run_eval)

lemma rate_limit_wait_mono: "rate_limit_wait i 0 \<le> rate_limit_wait (Suc i) 0"
  by (simp add: rate_limit_wait_def min_le_iff_disj)

text \<open>
  The formula of the wait. When the attempt numbered \<open>att\<close> of the loop is rate-limited,
  the next duration passed to \<open>time.sleep\<close> is \<open>min(120, 2 ** att * 5 + jitter)\<close> with a
  jitter between 0 and 5 (the random source yielding values between 0 and 1). As a
  function of \<open>att\<close> the wait without jitter grows, and is never above 120. But in a run
  whose attempts are all rate-limited the loop variable is 0 at each of them, so that
  without jitter every wait is 5.
\<close>

lemma rate_limit_wait_in_run:
  "(att < retries \<and> try_block (asked env prompt mi w) = RateLimited
      \<and> 0 \<le> random env (length (sleeps w)) \<and> random env (length (sleeps w)) \<le> 1 \<longrightarrow>
      (\<exists>jitter more. 0 \<le> jitter \<and> jitter \<le> 5
         \<and> sleeps (snd (call_llm_from env prompt mi retries att w))
             = sleeps w @ [min 120 (2 ^ att * 5 + jitter)] @ more))
   \<and> rate_limit_wait i 0 = min 120 (2 ^ i * 5)
   \<and> rate_limit_wait i 0 \<le> rate_limit_wait (Suc i) 0
   \<and> rate_limit_wait i 0 \<le> 120
   \<and> ((\<forall>k m c. try_block (respond env k m c) = RateLimited) \<and> (\<forall>k. random env k = 0) \<longrightarrow>
        drop (length (sleeps w)) (sleeps (snd (call_llm env prompt mi retries w)))
          = replicate retries 5)"
proof (intro conjI impI)
  show "rate_limit_wait i 0 = min 120 (2 ^ i * 5)"
    by (simp add: rate_limit_wait_def)
  show "rate_limit_wait i 0 \<le> rate_limit_wait (Suc i) 0"
    by (rule rate_limit_wait_mono)
  show "rate_limit_wait i 0 \<le> 120"
    by (simp add: rate_limit_wait_def)
next
  assume a: "att < retries \<and> try_block (asked env prompt mi w) = RateLimited
      \<and> 0 \<le> random env (length (sleeps w)) \<and> random env (length (sleeps w)) \<le> 1"
  let ?j = "5 * random env (length (sleeps w))"
  let ?w1 = "posted env prompt mi retries att w"
  let ?w2 = "sleep (rate_limit_wait att (uniform env ?w1 0 5)) ?w1"
  have eq: "call_llm_from env prompt mi retries att w
              = call_llm_from env prompt (mi + 1) (retries - 1) 0 ?w2"
    using a by (simp add: step_rate_limited)
  obtain more where "sleeps (snd (call_llm_from env prompt (mi + 1) (retries - 1) 0 ?w2))
      = sleeps ?w2 @ more"
    using call_llm_from_sleeps by blast
  then have "sleeps (snd (call_llm_from env prompt mi retries att w))
             = sleeps w @ [min 120 (2 ^ att * 5 + ?j)] @ more"
    by (simp add: eq uniform_def rate_limit_wait_def)
  moreover have "0 \<le> ?j" "?j \<le> 5"
    using a by auto
  ultimately show "\<exists>jitter more. 0 \<le> jitter \<and> jitter \<le> 5
         \<and> sleeps (snd (call_llm_from env prompt mi retries att w))
             = sleeps w @ [min 120 (2 ^ att * 5 + jitter)] @ more"
    by blast
next
  assume a: "(\<forall>k m c. try_block (respond env k m c) = RateLimited) \<and> (\<forall>k. random env k = 0)"
  then have "sleeps (snd (call_llm_from env prompt mi retries 0 w))
             = sleeps w @ map (\<lambda>j. rate_limit_wait 0 (5 * random env (length (sleeps w) + j)))
                            [0..<retries]"
    using call_llm_all_rate_limited[of w retries env prompt mi] by simp
  then show "drop (length (sleeps w)) (sleeps (snd (call_llm env prompt mi retries w)))
          = replicate retries 5"
    using a by (simp add: call_llm_def rate_limit_wait_def map_replicate_const)
qed

text \<open>
  C8. The waits do not grow under repeated rate limits. The loop variable \<open>attempt\<close> that
  the formula uses is not carried into the call made on a rate limit, which starts again
  at attempt 0. With the jitter at 0: after two timeouts (waits 1 and 2) the first rate
  limit comes at attempt 2 and waits 20, the next two come at attempt 0 of the calls that
  follow and wait 5 each; when every attempt is rate-limited the waits are 5, 5 and 5.
  The comment of the source announces longer waits for repeated rate limits.
\<close>

theorem backoff_restarts_under_repeated_rate_limits:
  "map (\<lambda>a. (model_index a, attempt_no a, try_block (got a) = RateLimited))
     (new_posts fresh (snd (call_llm (scripted [timed_out, timed_out] too_many [])
        (lit ''hi'') 0 3 fresh)))
     = [(0, 0, False), (0, 1, False), (0, 2, True), (1, 0, True), (2, 0, True)]
   \<and> sleeps (snd (call_llm (scripted [timed_out, timed_out] too_many [])
                  (lit ''hi'') 0 3 fresh)) = [1, 2, 20, 5, 5]
   \<and> sleeps (snd (call_llm (scripted [] too_many []) (lit ''hi'') 0 3 fresh)) = [5, 5, 5]"
  by (simp add: run_eval)

section \<open>Properties of the pipeline\<close>

lemma length_assign_explanations [simp]:
  "length (assign_explanations idx ys expl) = length expl"
  by (induction ys arbitrary: idx expl) auto

lemma nth_assign_explanations:
  "k < length expl \<Longrightarrow>
   assign_explanations idx ys expl ! k
     = (if idx \<le> k \<and> k < idx + length ys then ys ! (k - idx) else expl ! k)"
proof (induction ys arbitrary: idx expl)
  case Nil
  then show ?case by auto
next
  case (Cons y ys)
  then show ?case
    by (auto simp: nth_list_update nth_Cons' Suc_le_eq)
qed





lemma pb_recorded:
  "bs \<noteq> 0 \<Longrightarrow> i < length files \<Longrightarrow> batch_data_of (take bs (drop i files)) \<noteq> [] \<Longrightarrow>
   generate_batch_explanations env (batch_data_of (take bs (drop i files))) w = (Inr be, w1) \<Longrightarrow>
   process_batches env files bs i expl w
     = process_batches env files bs (i + bs) (assign_explanations i be expl)
         (if i + bs < length files then sleep (uniform env w1 2 5) w1 else w1)"
  by (subst process_batches.simps) (simp add: Let_def)



lemma split_nl_no_newline: "10 \<notin> set s \<Longrightarrow> split_nl s = [s]"
  by (induction s) auto

lemma matched_lines_unavailable: "matched_lines nd unavailable = []"
proof -
  have 1: "split_nl unavailable = [unavailable]"
    by (rule split_nl_no_newline) (simp add: unavailable_def warning_sign_def lit_def)
  have 2: "strip unavailable = unavailable"
    by (simp add: strip_def unavailable_def warning_sign_def lit_def is_space_def)
  have 3: "re_match_number nd unavailable = None"
    by (simp add: re_match_number_def unavailable_def warning_sign_def lit_def is_digit_def Let_def)
  show ?thesis
    by (simp add: matched_lines_def 1 2 3)
qed

lemma parse_unavailable:
  "parse_batch_response nd unavailable n = generic_explanations n"
  using matched_lines_unavailable[of nd]
  by (cases "n = 0")
     (simp_all add: parse_batch_response_def scan_lines_eq matched_lines_def generic_explanations_0)

lemma generate_all_rate_limited:
  assumes "\<forall>k m c. length (posts w) \<le> k \<and> k < length (posts w) + 3
             \<longrightarrow> try_block (respond env k m c) = RateLimited"
  shows "\<exists>w1. generate_batch_explanations env file_batch w
                = (Inr (generic_explanations (length file_batch)), w1)
              \<and> length (posts w1) = length (posts w) + 3"
proof -
  let ?p = "batch_prompt_loop 0 file_batch (lit ''Explain each code snippet in exactly 10 words:\<newline>\<newline>'')
            @ lit ''Provide explanations as a numbered list, each exactly 10 words:''"
  obtain res w1 where c: "call_llm env ?p 0 3 w = (res, w1)"
    by (cases "call_llm env ?p 0 3 w")
  from call_llm_all_rate_limited[OF assms, of ?p 0] c
  have "res = Inr unavailable" "length (posts w1) = length (posts w) + 3"
    by (simp_all add: call_llm_def)
  then show ?thesis
    using c by (simp add: generate_batch_explanations_def Let_def parse_unavailable)
qed











lemma process_folder_Inr:
  assumes "fst (process_folder env p w) = Inr r"
  shows "process_batches env (all_files env p)
            (min 4 (max 2 (length (all_files env p) div 10))) 0
            (replicate (length (all_files env p)) []) w
          = (Inr (explanations r), snd (process_folder env p w))"
    and "quiz_md r = generate_simple_quiz (explanations r)"
proof -
  let ?run = "process_batches env (all_files env p)
            (min 4 (max 2 (length (all_files env p) div 10))) 0
            (replicate (length (all_files env p)) []) w"
  obtain res w1 where run: "?run = (res, w1)"
    by (cases ?run)
  from assms run obtain expl where res: "res = Inr expl"
    by (cases res) (auto simp: process_folder_def Let_def)
  from assms run res have "r = \<lparr>explanations = expl, quiz_md = generate_simple_quiz expl\<rparr>
      \<and> snd (process_folder env p w) = w1"
    by (auto simp: process_folder_def Let_def split: sum.splits)
  with run res show "?run = (Inr (explanations r), snd (process_folder env p w))"
    and "quiz_md r = generate_simple_quiz (explanations r)"
    by simp_all
qed



lemmas folder_eval = process_folder_def process_batches.simps generate_batch_explanations_def
  batch_data_of_def source_def unavailable_def could_not_def warning_sign_def
  answer_texts_def no_bare_item_def main_def save_pdf_from_markdown_def


lemmas folder_eval2 = folder_eval two_files_def four_files_def


lemma length_batch_data_le: "length (batch_data_of (take bs xs)) \<le> bs"
proof -
  have "length (filter (\<lambda>f. contents f \<noteq> []) (take bs xs)) \<le> length (take bs xs)"
    by (rule length_filter_le)
  also have "\<dots> \<le> bs" by simp
  finally show ?thesis by (simp add: batch_data_of_def)
qed

text \<open>
  C4. Without an API key \<open>main\<close> raises \<open>ValueError\<close> and the world is unchanged: no
  request was made. When the next three requests are all rate-limited, the batch gets the
  placeholders \<open>Code file 1\<close>, ... after exactly three requests, with no error; the loop
  over the batches goes on with the next batch from a world with three more requests; and
  the slots outside the batch keep their contents.
\<close>

theorem fatal_versus_recoverable:
  "((API_KEY = None \<or> API_KEY = Some []) \<longrightarrow>
      main env API_KEY argv w
        = (Inl (ValueError (lit ''OPENROUTER_API_KEY not set in environment variables.'')), w))
   \<and> ((\<forall>k m c. length (posts w) \<le> k \<and> k < length (posts w) + 3
                 \<longrightarrow> try_block (respond env k m c) = RateLimited) \<longrightarrow>
        (\<exists>w1. length (posts w1) = length (posts w) + 3
            \<and> generate_batch_explanations env file_batch w
                = (Inr (generic_explanations (length file_batch)), w1))
        \<and> (bs \<noteq> 0 \<and> i < length files \<and> batch_data_of (take bs (drop i files)) \<noteq> [] \<longrightarrow>
             (\<exists>w2. length (posts w2) = length (posts w) + 3
                 \<and> process_batches env files bs i expl w
                     = process_batches env files bs (i + bs)
                         (assign_explanations i
                            (generic_explanations (length (batch_data_of (take bs (drop i files)))))
                            expl) w2)))
   \<and> (\<forall>k. k < length expl \<and> (k < i \<or> i + bs \<le> k) \<longrightarrow>
         assign_explanations i
           (generic_explanations (length (batch_data_of (take bs (drop i files))))) expl ! k
         = expl ! k)"
proof (intro conjI impI allI)
  assume "API_KEY = None \<or> API_KEY = Some []"
  then show "main env API_KEY argv w
        = (Inl (ValueError (lit ''OPENROUTER_API_KEY not set in environment variables.'')), w)"
    by (auto simp: main_def)
next
  assume h: "\<forall>k m c. length (posts w) \<le> k \<and> k < length (posts w) + 3
                 \<longrightarrow> try_block (respond env k m c) = RateLimited"
  from generate_all_rate_limited[OF h, of file_batch]
  show "\<exists>w1. length (posts w1) = length (posts w) + 3
            \<and> generate_batch_explanations env file_batch w
                = (Inr (generic_explanations (length file_batch)), w1)"
    by blast
  assume b: "bs \<noteq> 0 \<and> i < length files \<and> batch_data_of (take bs (drop i files)) \<noteq> []"
  let ?bd = "batch_data_of (take bs (drop i files))"
  from generate_all_rate_limited[OF h, of ?bd]
  obtain w1 where w1: "generate_batch_explanations env ?bd w
      = (Inr (generic_explanations (length ?bd)), w1)" "length (posts w1) = length (posts w) + 3"
    by blast
  let ?w2 = "if i + bs < length files then sleep (uniform env w1 2 5) w1 else w1"
  have "process_batches env files bs i expl w
          = process_batches env files bs (i + bs)
              (assign_explanations i (generic_explanations (length ?bd)) expl) ?w2"
    using b w1(1) by (simp add: pb_recorded)
  moreover have "length (posts ?w2) = length (posts w) + 3"
    using w1(2) by simp
  ultimately show "\<exists>w2. length (posts w2) = length (posts w) + 3
                 \<and> process_batches env files bs i expl w
                     = process_batches env files bs (i + bs)
                         (assign_explanations i (generic_explanations (length ?bd)) expl) w2"
    by blast
next
  fix k
  assume k: "k < length expl \<and> (k < i \<or> i + bs \<le> k)"
  have "length (generic_explanations (length (batch_data_of (take bs (drop i files))))) \<le> bs"
    using length_batch_data_le[of bs "drop i files"] by (simp add: length_generic_explanations)
  with k show "assign_explanations i
           (generic_explanations (length (batch_data_of (take bs (drop i files))))) expl ! k
         = expl ! k"
    by (auto simp: nth_assign_explanations)
qed

theorem fatal_versus_recoverable_witness:
  "main (scripted [] too_many two_files) None [lit ''explainer.py'', lit ''project''] fresh
     = (Inl (ValueError (lit ''OPENROUTER_API_KEY not set in environment variables.'')), fresh)
   \<and> fst (process_batches (scripted [] too_many two_files) two_files 2 0 [[], []] fresh)
     = Inr [lit ''Code file 1'', lit ''Code file 2'']
   \<and> fst (main (scripted [completion (lit ''1. reads\<newline>2. writes'')] too_many four_files)
            (Some (lit ''key'')) [lit ''explainer.py'', lit ''project''] fresh)
     = Inr \<lparr>explanations = [lit ''reads'', lit ''writes'', lit ''Code file 1'', lit ''Code file 2''],
            quiz_md = generate_simple_quiz
              [lit ''reads'', lit ''writes'', lit ''Code file 1'', lit ''Code file 2'']\<rparr>"
  using fatal_versus_recoverable[where API_KEY = None and w = fresh
      and env = "scripted [] too_many two_files"
      and argv = "[lit ''explainer.py'', lit ''project'']" and file_batch = "[]"
      and bs = 2 and i = 0 and files = two_files and expl = "[[], []]"]
  by (simp add: folder_eval2 run_eval parser_eval)

text \<open>
  C9. The quiz of a run is \<open>generate_simple_quiz\<close> of its explanation sequence, a
  function of that sequence alone: two runs, in whatever environments, with equal
  explanation sequences have equal quizzes. Producing it makes no request: the world at
  the end of \<open>process_folder\<close> is the world at the end of the loop over the batches.
\<close>

theorem quiz_reproducible:
  "(fst (process_folder env1 p1 w1) = Inr r1 \<and> fst (process_folder env2 p2 w2) = Inr r2
      \<and> explanations r1 = explanations r2 \<longrightarrow> quiz_md r1 = quiz_md r2)
   \<and> (fst (process_folder env1 p1 w1) = Inr r1 \<longrightarrow>
        quiz_md r1 = generate_simple_quiz (explanations r1)
        \<and> process_batches env1 (all_files env1 p1)
            (min 4 (max 2 (length (all_files env1 p1) div 10))) 0
            (replicate (length (all_files env1 p1)) []) w1
          = (Inr (explanations r1), snd (process_folder env1 p1 w1)))"
proof -
  have q: "quiz_md r = generate_simple_quiz (explanations r)
        \<and> process_batches env (all_files env p)
            (min 4 (max 2 (length (all_files env p) div 10))) 0
            (replicate (length (all_files env p)) []) w
          = (Inr (explanations r), snd (process_folder env p w))"
    if "fst (process_folder env p w) = Inr r" for env p w r
    using process_folder_Inr[OF that] by simp
  show ?thesis
    using q[of env1 p1 w1 r1] q[of env2 p2 w2 r2] by auto
qed

theorem quiz_reproducible_witness:
  "fst (process_folder (scripted [completion (lit ''1. reads\<newline>2. writes'')] timed_out two_files)
         (lit ''project'') fresh)
     = Inr \<lparr>explanations = [lit ''reads'', lit ''writes''],
            quiz_md = generate_simple_quiz [lit ''reads'', lit ''writes'']\<rparr>
   \<and> fst (process_folder
           (scripted [timed_out, completion (lit ''1) reads\<newline>noise\<newline>2) writes'')] too_many
              [source ''c.py'' 3 ''z = 3'', source ''d.py'' 4 ''t = 4''])
         (lit ''other'') fresh)
     = Inr \<lparr>explanations = [lit ''reads'', lit ''writes''],
            quiz_md = generate_simple_quiz [lit ''reads'', lit ''writes'']\<rparr>"
  using quiz_reproducible[of
      "scripted [completion (lit ''1. reads\<newline>2. writes'')] timed_out two_files"
      "lit ''project''" fresh
      "\<lparr>explanations = [lit ''reads'', lit ''writes''],
        quiz_md = generate_simple_quiz [lit ''reads'', lit ''writes'']\<rparr>"
      "scripted [timed_out, completion (lit ''1) reads\<newline>noise\<newline>2) writes'')] too_many
              [source ''c.py'' 3 ''z = 3'', source ''d.py'' 4 ''t = 4'']"
      "lit ''other''" fresh
      "\<lparr>explanations = [lit ''reads'', lit ''writes''],
        quiz_md = generate_simple_quiz [lit ''reads'', lit ''writes'']\<rparr>"]
  by (simp add: folder_eval2 run_eval parser_eval)

end
